theory Spec2Isabelle
  imports Main "HOL-Library.Char_ord" "HOL-Library.List_Lexorder"
    "HOL-Library.Product_Lexorder" "HOL-Library.Multiset"
begin

section \<open>Configuration (config.py)\<close>

text \<open>
  \<^verbatim>\<open>SECURITY_LEVELS = {0: "Public", 1: "Confidential", 2: "Secret", 3: "Top Secret"}\<close>.
  The dictionary is kept as an association list; \<^verbatim>\<open>k in SECURITY_LEVELS\<close> and
  \<^verbatim>\<open>SECURITY_LEVELS.get(k, d)\<close> are lookups in it. Levels are Python integers.
\<close>

definition SECURITY_LEVELS :: "(int \<times> string) list" where
  "SECURITY_LEVELS =
     [(0, ''Public''), (1, ''Confidential''), (2, ''Secret''), (3, ''Top Secret'')]"

definition in_SECURITY_LEVELS :: "int \<Rightarrow> bool" where
  "in_SECURITY_LEVELS level = (map_of SECURITY_LEVELS level \<noteq> None)"

definition SECURITY_LEVELS_get :: "int \<Rightarrow> string \<Rightarrow> string" where
  "SECURITY_LEVELS_get level dflt =
     (case map_of SECURITY_LEVELS level of None \<Rightarrow> dflt | Some name \<Rightarrow> name)"

text \<open>The defined level set of the specification, \<open>{0, 1, 2, 3}\<close>.\<close>

definition defined_levels :: "int set" where
  "defined_levels = {0, 1, 2, 3}"

section \<open>Policy engine (security\_monitor.py)\<close>

definition check_read_access :: "int \<Rightarrow> int \<Rightarrow> bool" where
  "check_read_access user_level object_level =
     (if \<not> in_SECURITY_LEVELS user_level \<or> \<not> in_SECURITY_LEVELS object_level then False
      else user_level \<ge> object_level)"

definition check_write_access :: "int \<Rightarrow> int \<Rightarrow> bool" where
  "check_write_access user_level object_level =
     (if \<not> in_SECURITY_LEVELS user_level \<or> \<not> in_SECURITY_LEVELS object_level then False
      else user_level \<le> object_level)"

text \<open>
  \<^verbatim>\<open>is_owner\<close> and \<^verbatim>\<open>is_super_admin\<close> are used for their truth value only; the caller
  passes the truth value of what it read.
\<close>

definition check_delete_access :: "int \<Rightarrow> int \<Rightarrow> bool \<Rightarrow> bool \<Rightarrow> bool" where
  "check_delete_access user_level object_level is_owner is_super_admin =
     (if is_super_admin \<and> user_level = 3 then True
      else if is_owner \<and> user_level = object_level then True
      else False)"

definition can_view_object_existence :: "int \<Rightarrow> int \<Rightarrow> bool" where
  "can_view_object_existence user_level object_level = (user_level \<ge> object_level)"

definition get_access_description :: "int \<Rightarrow> int \<Rightarrow> string \<Rightarrow> string" where
  "get_access_description user_level object_level action =
     (let user_level_name = SECURITY_LEVELS_get user_level ''Unknown'';
          object_level_name = SECURITY_LEVELS_get object_level ''Unknown''
      in if action = ''read'' then
           (if user_level \<ge> object_level
            then ''READ granted: '' @ user_level_name @ '' can read '' @ object_level_name
            else ''READ denied: '' @ user_level_name @ '' cannot read '' @ object_level_name
                 @ '' (No Read Up)'')
         else if action = ''write'' then
           (if user_level \<le> object_level
            then ''WRITE granted: '' @ user_level_name @ '' can write to '' @ object_level_name
            else ''WRITE denied: '' @ user_level_name @ '' cannot write to ''
                 @ object_level_name @ '' (No Write Down)'')
         else ''Unknown action'')"

definition validate_security_level :: "int \<Rightarrow> bool" where
  "validate_security_level level = in_SECURITY_LEVELS level"

section \<open>Storage (database.py) and the audit sink (audit.py)\<close>

text \<open>
  The tables of \<^verbatim>\<open>init_database\<close>, with the columns the mediator and the object directory
  read or write. A row of \<^verbatim>\<open>users\<close>: \<^verbatim>\<open>id\<close>, \<^verbatim>\<open>security_level\<close>, \<^verbatim>\<open>is_super_admin\<close> (SQLite
  keeps the BOOLEAN column as an integer, 0 or 1). A row of \<^verbatim>\<open>objects\<close>: \<^verbatim>\<open>id\<close>, \<^verbatim>\<open>name\<close>,
  \<^verbatim>\<open>content\<close>, \<^verbatim>\<open>security_level\<close>, \<^verbatim>\<open>owner_id\<close>. A row of \<^verbatim>\<open>audit_logs\<close>: \<^verbatim>\<open>event_type\<close>,
  \<^verbatim>\<open>user_id\<close>, \<^verbatim>\<open>object_id\<close> (nullable), \<^verbatim>\<open>details\<close>, \<^verbatim>\<open>success\<close>; its \<^verbatim>\<open>id\<close> and
  \<^verbatim>\<open>timestamp\<close> are the position in the list. Tables are lists in insertion order.
\<close>

record user_row =
  u_id :: int
  u_security_level :: int
  u_is_super_admin :: int

record object_row =
  o_id :: int
  o_name :: string
  o_content :: string
  o_security_level :: int
  o_owner_id :: int

record audit_row =
  a_event_type :: string
  a_user_id :: int
  a_object_id :: "int option"
  a_details :: string
  a_success :: bool

record database =
  users :: "user_row list"
  objects :: "object_row list"
  objects_seq :: int
  audit_logs :: "audit_row list"

text \<open>
  Every call into sqlite3 can raise. The environment of one mediated call says which
  statements do, each with the message of the exception:
  \<^item> \<open>load_error\<close>: opening the connection or a \<^verbatim>\<open>SELECT\<close> in the called method raises;
  \<^item> \<open>mutation_error\<close>: the \<^verbatim>\<open>UPDATE\<close>, \<^verbatim>\<open>INSERT\<close> or \<^verbatim>\<open>DELETE\<close> on \<^verbatim>\<open>objects\<close>, or its
    \<^verbatim>\<open>commit\<close>, raises (nothing is committed then);
  \<^item> \<open>audit_error\<close>: the \<^verbatim>\<open>INSERT\<close> into \<^verbatim>\<open>audit_logs\<close> of \<^verbatim>\<open>log_event\<close>, or its \<^verbatim>\<open>commit\<close>,
    raises.
  An exception that leaves a method is the result \<open>Inl (DatabaseError msg)\<close>.
\<close>

record faults =
  load_error :: "string option"
  mutation_error :: "string option"
  audit_error :: "string option"

definition no_faults :: faults where
  "no_faults = \<lparr>load_error = None, mutation_error = None, audit_error = None\<rparr>"

datatype error = DatabaseError string

text \<open>\<^verbatim>\<open>SELECT ... FROM users WHERE id = ?\<close> and \<^verbatim>\<open>fetchone()\<close>; likewise for objects.\<close>

definition fetch_user :: "database \<Rightarrow> int \<Rightarrow> user_row option" where
  "fetch_user db user_id = find (\<lambda>r. u_id r = user_id) (users db)"

definition fetch_object :: "database \<Rightarrow> int \<Rightarrow> object_row option" where
  "fetch_object db object_id = find (\<lambda>r. o_id r = object_id) (objects db)"

text \<open>\<^verbatim>\<open>UPDATE objects SET content = ? WHERE id = ?\<close>.\<close>

definition update_object_content :: "database \<Rightarrow> int \<Rightarrow> string \<Rightarrow> database" where
  "update_object_content db object_id new_content =
     db\<lparr>objects := map (\<lambda>r. if o_id r = object_id then r\<lparr>o_content := new_content\<rparr> else r)
                      (objects db)\<rparr>"

text \<open>
  \<^verbatim>\<open>INSERT INTO objects (name, content, security_level, owner_id) VALUES (?, ?, ?, ?)\<close> and
  \<^verbatim>\<open>cursor.lastrowid\<close>. The key is \<^verbatim>\<open>INTEGER PRIMARY KEY AUTOINCREMENT\<close>: one more than the
  largest key ever used.
\<close>

definition next_object_id :: "database \<Rightarrow> int" where
  "next_object_id db = fold max (map o_id (objects db)) (objects_seq db) + 1"

definition insert_object :: "database \<Rightarrow> string \<Rightarrow> string \<Rightarrow> int \<Rightarrow> int \<Rightarrow> int \<times> database" where
  "insert_object db name content security_level owner_id =
     (let lastrowid = next_object_id db
      in (lastrowid,
          db\<lparr>objects := objects db @
                 [\<lparr>o_id = lastrowid, o_name = name, o_content = content,
                   o_security_level = security_level, o_owner_id = owner_id\<rparr>],
             objects_seq := lastrowid\<rparr>))"

text \<open>\<^verbatim>\<open>DELETE FROM objects WHERE id = ?\<close>.\<close>

definition delete_object_row :: "database \<Rightarrow> int \<Rightarrow> database" where
  "delete_object_row db object_id =
     db\<lparr>objects := filter (\<lambda>r. o_id r \<noteq> object_id) (objects db)\<rparr>"

text \<open>
  \<^verbatim>\<open>log_event(user_id, event_type, object_id, details, success)\<close>: the insert is inside
  \<^verbatim>\<open>try\<close>; on an exception the function prints a message and returns, and no row is
  written.
\<close>

definition log_event ::
  "faults \<Rightarrow> database \<Rightarrow> int \<Rightarrow> string \<Rightarrow> int option \<Rightarrow> string \<Rightarrow> bool \<Rightarrow> database" where
  "log_event env db user_id event_type object_id details success =
     (case audit_error env of
        None \<Rightarrow>
          db\<lparr>audit_logs := audit_logs db @
                [\<lparr>a_event_type = event_type, a_user_id = user_id, a_object_id = object_id,
                  a_details = details, a_success = success\<rparr>]\<rparr>
      | Some e \<Rightarrow> db)"

section \<open>Formatting (f-strings)\<close>

text \<open>\<^verbatim>\<open>str\<close> of a Python integer, in decimal, and of a Python boolean.\<close>

function str_nat :: "nat \<Rightarrow> string" where
  "str_nat n =
     (if n < 10 then [''0123456789'' ! n]
      else str_nat (n div 10) @ [''0123456789'' ! (n mod 10)])"
  by pat_completeness auto
termination
  by (relation "measure id") auto

definition str_int :: "int \<Rightarrow> string" where
  "str_int i = (if i < 0 then CHR ''-'' # str_nat (nat (- i)) else str_nat (nat i))"

definition str_bool :: "bool \<Rightarrow> string" where
  "str_bool b = (if b then ''True'' else ''False'')"

section \<open>Access mediator (access\_manager.py)\<close>

text \<open>
  Each method takes the environment and the database, and returns what the caller gets
  (\<open>Inr\<close> the returned value, \<open>Inl\<close> an exception that leaves the method) with the
  database after the call.
\<close>

definition request_read_access ::
  "faults \<Rightarrow> database \<Rightarrow> int \<Rightarrow> int \<Rightarrow> (error + (string \<times> string) option) \<times> database" where
  "request_read_access env db user_id object_id =
     (case load_error env of
        Some e \<Rightarrow> (Inl (DatabaseError e), db)
      | None \<Rightarrow>
         (let not_found = (Inr None, log_event env db user_id ''read_access'' (Some object_id)
                                       ''User or object not found'' False)
          in case fetch_user db user_id of
            None \<Rightarrow> not_found
          | Some user_row \<Rightarrow>
             (case fetch_object db object_id of
                None \<Rightarrow> not_found
              | Some object_row \<Rightarrow>
                 (let user_level = u_security_level user_row;
                      object_name = o_name object_row;
                      content = o_content object_row;
                      object_level = o_security_level object_row
                  in if \<not> can_view_object_existence user_level object_level then
                       (Inr None,
                        log_event env db user_id ''read_access'' (Some object_id)
                          (''Cannot view object existence - User level: '' @ str_int user_level
                           @ '', Object level: '' @ str_int object_level) False)
                     else if check_read_access user_level object_level then
                       (Inr (Some (object_name, content)),
                        log_event env db user_id ''read_access'' (Some object_id)
                          (get_access_description user_level object_level ''read'') True)
                     else
                       (Inr None,
                        log_event env db user_id ''read_access'' (Some object_id)
                          (get_access_description user_level object_level ''read'') False)))))"

definition request_write_access ::
  "faults \<Rightarrow> database \<Rightarrow> int \<Rightarrow> int \<Rightarrow> string \<Rightarrow> (error + bool) \<times> database" where
  "request_write_access env db user_id object_id new_content =
     (case load_error env of
        Some e \<Rightarrow> (Inl (DatabaseError e), db)
      | None \<Rightarrow>
         (let not_found = (Inr False, log_event env db user_id ''write_access'' (Some object_id)
                                        ''User or object not found'' False)
          in case fetch_user db user_id of
            None \<Rightarrow> not_found
          | Some user_row \<Rightarrow>
             (case fetch_object db object_id of
                None \<Rightarrow> not_found
              | Some object_row \<Rightarrow>
                 (let user_level = u_security_level user_row;
                      object_level = o_security_level object_row
                  in if check_write_access user_level object_level then
                       (case mutation_error env of
                          None \<Rightarrow>
                            (Inr True,
                             log_event env (update_object_content db object_id new_content)
                               user_id ''write_access'' (Some object_id)
                               (get_access_description user_level object_level ''write'') True)
                        | Some e \<Rightarrow>
                            (Inr False,
                             log_event env db user_id ''write_access'' (Some object_id)
                               (''Database error: '' @ e) False))
                     else
                       (Inr False,
                        log_event env db user_id ''write_access'' (Some object_id)
                          (get_access_description user_level object_level ''write'') False)))))"

definition request_object_creation ::
  "faults \<Rightarrow> database \<Rightarrow> int \<Rightarrow> string \<Rightarrow> string \<Rightarrow> int \<Rightarrow> (error + bool) \<times> database" where
  "request_object_creation env db user_id object_name content security_level =
     (case load_error env of
        Some e \<Rightarrow> (Inl (DatabaseError e), db)
      | None \<Rightarrow>
         (case fetch_user db user_id of
            None \<Rightarrow>
              (Inr False, log_event env db user_id ''create_object'' None ''User not found'' False)
          | Some user_row \<Rightarrow>
             (let user_level = u_security_level user_row
              in if \<not> validate_security_level security_level then
                   (Inr False,
                    log_event env db user_id ''create_object'' None
                      (''Invalid security level: '' @ str_int security_level) False)
                 else if u_is_super_admin user_row \<noteq> 0 \<or> security_level \<le> user_level then
                   (case mutation_error env of
                      None \<Rightarrow>
                        (let (object_id, db') =
                               insert_object db object_name content security_level user_id
                         in (Inr True,
                             log_event env db' user_id ''create_object'' (Some object_id)
                               (''Object created with level: '' @ str_int security_level) True))
                    | Some e \<Rightarrow>
                        (Inr False,
                         log_event env db user_id ''create_object'' None
                           (''Database error: '' @ e) False))
                 else
                   (Inr False,
                    log_event env db user_id ''create_object'' None
                      (''Cannot create object at level '' @ str_int security_level
                       @ '' (user level: '' @ str_int user_level @ '')'') False))))"

definition request_object_deletion ::
  "faults \<Rightarrow> database \<Rightarrow> int \<Rightarrow> int \<Rightarrow> (error + bool) \<times> database" where
  "request_object_deletion env db user_id object_id =
     (case load_error env of
        Some e \<Rightarrow> (Inl (DatabaseError e), db)
      | None \<Rightarrow>
         (let not_found = (Inr False, log_event env db user_id ''delete_object'' (Some object_id)
                                        ''User or object not found'' False)
          in case fetch_user db user_id of
            None \<Rightarrow> not_found
          | Some user_row \<Rightarrow>
             (case fetch_object db object_id of
                None \<Rightarrow> not_found
              | Some object_row \<Rightarrow>
                 (let user_level = u_security_level user_row;
                      is_super_admin = u_is_super_admin user_row;
                      object_level = o_security_level object_row;
                      owner_id = o_owner_id object_row;
                      is_owner = (user_id = owner_id)
                  in if check_delete_access user_level object_level is_owner
                          (is_super_admin \<noteq> 0) then
                       (case mutation_error env of
                          None \<Rightarrow>
                            (Inr True,
                             log_event env (delete_object_row db object_id) user_id
                               ''delete_object'' (Some object_id)
                               ''Object deleted successfully'' True)
                        | Some e \<Rightarrow>
                            (Inr False,
                             log_event env db user_id ''delete_object'' (Some object_id)
                               (''Database error: '' @ e) False))
                     else
                       (Inr False,
                        log_event env db user_id ''delete_object'' (Some object_id)
                          (''Delete access denied - Owner: '' @ str_bool is_owner
                           @ '', Super Admin: '' @ str_int is_super_admin) False)))))"

text \<open>
  The rows of \<^verbatim>\<open>SELECT id, name, security_level, owner_id FROM objects\<close>, and
  \<^verbatim>\<open>ORDER BY security_level DESC, name ASC\<close>: rows are compared on the pair of the negated
  level and the name (names in the order of their bytes, SQLite's default collation).
  The engine does not fix the order of rows equal on both; the model keeps table order.
\<close>

type_synonym object_summary = "int \<times> string \<times> int \<times> int"

definition summary :: "object_row \<Rightarrow> object_summary" where
  "summary r = (o_id r, o_name r, o_security_level r, o_owner_id r)"

definition order_key :: "object_row \<Rightarrow> int \<times> string" where
  "order_key r = (- o_security_level r, o_name r)"

text \<open>
  The order the specification asks of a listing: descending security level, then
  ascending name.
\<close>

definition level_desc_name_asc :: "object_row \<Rightarrow> object_row \<Rightarrow> bool" where
  "level_desc_name_asc r r' =
     (o_security_level r > o_security_level r' \<or>
      (o_security_level r = o_security_level r' \<and> o_name r \<le> o_name r'))"

definition get_accessible_objects ::
  "faults \<Rightarrow> database \<Rightarrow> int \<Rightarrow> (error + object_summary list) \<times> database" where
  "get_accessible_objects env db user_id =
     (case load_error env of
        Some e \<Rightarrow> (Inl (DatabaseError e), db)
      | None \<Rightarrow>
         (case fetch_user db user_id of
            None \<Rightarrow> (Inr [], db)
          | Some user_row \<Rightarrow>
             (let user_level = u_security_level user_row
              in (Inr (map summary
                        (sort_key order_key
                          (filter (\<lambda>r. o_security_level r \<le> user_level) (objects db)))),
                  db))))"

section \<open>Object directory (object\_manager.py)\<close>

text \<open>
  SQLite's \<^verbatim>\<open>LIKE\<close> as the queries use it (no \<^verbatim>\<open>ESCAPE\<close>), on the UTF-8 bytes of the
  pattern and of the name: both end at the first NUL byte; \<^verbatim>\<open>%\<close> in the pattern stands
  for any run of characters, \<^verbatim>\<open>_\<close> for any one character (a lead byte with the
  continuation bytes that follow it), and ASCII letters match without regard to case.
\<close>

definition ascii_lower :: "char \<Rightarrow> char" where
  "ascii_lower c =
     (if CHR ''A'' \<le> c \<and> c \<le> CHR ''Z'' then char_of (of_char c + (32::nat)) else c)"

definition utf8_continuation :: "char \<Rightarrow> bool" where
  "utf8_continuation b = (128 \<le> (of_char b :: nat) \<and> (of_char b :: nat) < 192)"

text \<open>What is left of the text after the character whose first byte is \<open>c\<close>.\<close>

definition utf8_rest :: "char \<Rightarrow> string \<Rightarrow> string" where
  "utf8_rest c cs =
     (if (of_char c :: nat) \<ge> 192 then dropWhile utf8_continuation cs else cs)"

function like_match :: "string \<Rightarrow> string \<Rightarrow> bool" where
  "like_match [] [] = True"
| "like_match [] (c # cs) = False"
| "like_match (p # ps) [] = (p = CHR ''%'' \<and> like_match ps [])"
| "like_match (p # ps) (c # cs) =
     (if p = CHR ''%'' then like_match ps (c # cs) \<or> like_match (p # ps) (utf8_rest c cs)
      else if p = CHR ''_'' then like_match ps (utf8_rest c cs)
      else ascii_lower p = ascii_lower c \<and> like_match ps cs)"
  by pat_completeness auto
termination
  by (relation "measure (\<lambda>(p, s). length p + length s)")
    (auto simp add: utf8_rest_def less_Suc_eq_le intro!: le_SucI length_dropWhile_le)

definition c_string :: "string \<Rightarrow> string" where
  "c_string s = takeWhile (\<lambda>c. c \<noteq> CHR 0x00) s"

definition sql_like :: "string \<Rightarrow> string \<Rightarrow> bool" where
  "sql_like pattern s = like_match (c_string pattern) (c_string s)"

text \<open>\<^verbatim>\<open>return user['security_level'] if user else 0\<close>.\<close>

definition get_user_security_level :: "faults \<Rightarrow> database \<Rightarrow> int \<Rightarrow> error + int" where
  "get_user_security_level env db user_id =
     (case load_error env of
        Some e \<Rightarrow> Inl (DatabaseError e)
      | None \<Rightarrow>
         (case fetch_user db user_id of
            Some user \<Rightarrow> Inr (u_security_level user)
          | None \<Rightarrow> Inr 0))"

definition search_objects ::
  "faults \<Rightarrow> database \<Rightarrow> int \<Rightarrow> string \<Rightarrow> error + object_summary list" where
  "search_objects env db user_id search_term =
     (case load_error env of
        Some e \<Rightarrow> Inl (DatabaseError e)
      | None \<Rightarrow>
         (case get_user_security_level env db user_id of
            Inl e \<Rightarrow> Inl e
          | Inr user_level \<Rightarrow>
              Inr (map summary
                    (sort_key order_key
                      (filter (\<lambda>r. sql_like (''%'' @ search_term @ ''%'') (o_name r) \<and>
                                    o_security_level r \<le> user_level)
                         (objects db))))))"

text \<open>
  The rows of \<^verbatim>\<open>SELECT id, name, owner_id FROM objects WHERE security_level = ?
  ORDER BY name ASC\<close>.
\<close>

definition level_entry :: "object_row \<Rightarrow> int \<times> string \<times> int" where
  "level_entry r = (o_id r, o_name r, o_owner_id r)"

definition get_objects_by_level ::
  "faults \<Rightarrow> database \<Rightarrow> int \<Rightarrow> int \<Rightarrow> error + (int \<times> string \<times> int) list" where
  "get_objects_by_level env db user_id security_level =
     (case get_user_security_level env db user_id of
        Inl e \<Rightarrow> Inl e
      | Inr user_level \<Rightarrow>
          if security_level > user_level then Inr []
          else (case load_error env of
                  Some e \<Rightarrow> Inl (DatabaseError e)
                | None \<Rightarrow>
                    Inr (map level_entry
                          (sort_key o_name
                            (filter (\<lambda>r. o_security_level r = security_level) (objects db))))))"

section \<open>A sample database\<close>

text \<open>
  Two subjects, a super-admin at level 3 (id 1) and an ordinary subject at level 1
  (id 2), and four objects at levels 1, 1, 2 and 0.
\<close>

definition sample_db :: database where
  "sample_db =
     \<lparr>users = [\<lparr>u_id = 1, u_security_level = 3, u_is_super_admin = 1\<rparr>,
               \<lparr>u_id = 2, u_security_level = 1, u_is_super_admin = 0\<rparr>],
      objects = [\<lparr>o_id = 1, o_name = ''budget'', o_content = ''x'', o_security_level = 1,
                  o_owner_id = 2\<rparr>,
                 \<lparr>o_id = 2, o_name = ''agenda'', o_content = ''y'', o_security_level = 1,
                  o_owner_id = 2\<rparr>,
                 \<lparr>o_id = 3, o_name = ''codes'', o_content = ''z'', o_security_level = 2,
                  o_owner_id = 1\<rparr>,
                 \<lparr>o_id = 4, o_name = ''Agenda (public)'', o_content = ''w'',
                  o_security_level = 0, o_owner_id = 1\<rparr>],
      objects_seq = 4,
      audit_logs = []\<rparr>"





section \<open>Facts about the policy engine\<close>

lemma in_SECURITY_LEVELS_iff: "in_SECURITY_LEVELS l \<longleftrightarrow> l \<in> defined_levels"
  by (simp add: in_SECURITY_LEVELS_def SECURITY_LEVELS_def defined_levels_def)

text \<open>
  Claim C2. For levels \<open>a\<close>, \<open>b\<close> both in the defined set, \<open>check_read_access a b\<close> is
  \<open>a \<ge> b\<close> and \<open>check_write_access a b\<close> is \<open>a \<le> b\<close>; when either level is outside the
  defined set, both checks return false.
\<close>

theorem check_access_defined_levels:
  "(a \<in> defined_levels \<and> b \<in> defined_levels \<longrightarrow>
      check_read_access a b = (a \<ge> b) \<and> check_write_access a b = (a \<le> b)) \<and>
   (a \<notin> defined_levels \<or> b \<notin> defined_levels \<longrightarrow>
      \<not> check_read_access a b \<and> \<not> check_write_access a b)"
  by (simp add: check_read_access_def check_write_access_def in_SECURITY_LEVELS_iff)

theorem check_access_defined_levels_witness:
  "(2::int) \<in> defined_levels \<and> (1::int) \<in> defined_levels \<and> (7::int) \<notin> defined_levels \<and>
   check_read_access 2 1 \<and> \<not> check_write_access 2 1 \<and>
   \<not> check_read_access 7 1 \<and> \<not> check_write_access 7 1 \<and>
   \<not> check_read_access 1 7 \<and> \<not> check_write_access 1 7"
  using check_access_defined_levels [of 2 1] check_access_defined_levels [of 7 1]
    check_access_defined_levels [of 1 7]
  by (simp add: defined_levels_def)

text \<open>
  Claim C3, as stated: for every pair of integer levels, also outside the defined set,
  \<open>can_view_object_existence\<close> and \<open>check_read_access\<close> return the same boolean. It fails:
  \<open>can_view_object_existence\<close> has no level-validity guard, so at levels 5 and 4 it
  returns true where \<open>check_read_access\<close> returns false.
\<close>

theorem can_view_differs_from_check_read:
  "can_view_object_existence 5 4 \<noteq> check_read_access 5 4"
  by (simp add: can_view_object_existence_def check_read_access_def in_SECURITY_LEVELS_def
      SECURITY_LEVELS_def)

text \<open>
  Claim C3, amended: \<open>can_view_object_existence a b\<close> is \<open>a \<ge> b\<close> for all integers; it
  agrees with \<open>check_read_access a b\<close> whenever both levels are in the defined set, and
  whenever \<open>check_read_access\<close> grants, \<open>can_view_object_existence\<close> grants too.
\<close>

theorem can_view_vs_check_read:
  "can_view_object_existence a b = (a \<ge> b) \<and>
   (a \<in> defined_levels \<and> b \<in> defined_levels \<longrightarrow>
      can_view_object_existence a b = check_read_access a b) \<and>
   (check_read_access a b \<longrightarrow> can_view_object_existence a b)"
  by (simp add: can_view_object_existence_def check_read_access_def in_SECURITY_LEVELS_iff)

theorem can_view_vs_check_read_witness:
  "(1::int) \<in> defined_levels \<and> (2::int) \<in> defined_levels \<and>
   can_view_object_existence 1 2 = check_read_access 1 2 \<and>
   check_read_access 2 1 \<and> can_view_object_existence 2 1"
  using can_view_vs_check_read [of 1 2] can_view_vs_check_read [of 2 1]
  by (simp add: defined_levels_def check_read_access_def in_SECURITY_LEVELS_iff)

text \<open>
  Claim C4. \<open>check_delete_access\<close> returns true exactly when the subject is a super-admin
  at level 3, or is the owner and its level equals the object's level. In particular a
  super-admin at level 3 is granted whatever the object's level and owner, and an owner
  who is not a super-admin is granted exactly when the levels are equal. The mediator
  passes \<open>user_id = owner_id\<close> as ownership: for an existing subject and object (the load
  and the deletion raising nothing) \<open>request_object_deletion\<close> returns that decision.
\<close>

theorem check_delete_access_iff:
  "check_delete_access user_level object_level is_owner is_super_admin =
     ((is_super_admin \<and> user_level = 3) \<or> (is_owner \<and> user_level = object_level)) \<and>
   check_delete_access 3 object_level is_owner True = True \<and>
   check_delete_access user_level object_level True False = (user_level = object_level) \<and>
   (load_error env = None \<and> mutation_error env = None \<and>
    fetch_user db user_id = Some user_row \<and> fetch_object db object_id = Some object_row \<longrightarrow>
      fst (request_object_deletion env db user_id object_id) =
        Inr (check_delete_access (u_security_level user_row) (o_security_level object_row)
               (user_id = o_owner_id object_row) (u_is_super_admin user_row \<noteq> 0)))"
  by (simp add: check_delete_access_def request_object_deletion_def Let_def)

theorem check_delete_access_iff_witness:
  "check_delete_access 3 1 False True = True \<and>
   check_delete_access 2 1 True False = False \<and>
   check_delete_access 1 1 True False = True \<and>
   fst (request_object_deletion no_faults sample_db 1 1) = Inr True \<and>
   fst (request_object_deletion no_faults sample_db 2 3) = Inr False"
proof -
  let ?u1 = "\<lparr>u_id = 1, u_security_level = 3, u_is_super_admin = 1\<rparr>"
  let ?u2 = "\<lparr>u_id = 2, u_security_level = 1, u_is_super_admin = 0\<rparr>"
  let ?o1 = "\<lparr>o_id = 1, o_name = ''budget'', o_content = ''x'', o_security_level = 1,
              o_owner_id = 2\<rparr>"
  let ?o3 = "\<lparr>o_id = 3, o_name = ''codes'', o_content = ''z'', o_security_level = 2,
              o_owner_id = 1\<rparr>"
  have n: "load_error no_faults = None" "mutation_error no_faults = None"
    by (simp_all add: no_faults_def)
  have u: "fetch_user sample_db 1 = Some ?u1" "fetch_user sample_db 2 = Some ?u2"
    by (simp_all add: fetch_user_def sample_db_def)
  have ob: "fetch_object sample_db 1 = Some ?o1" "fetch_object sample_db 3 = Some ?o3"
    by (simp_all add: fetch_object_def sample_db_def)
  from check_delete_access_iff [of 3 1 False True no_faults sample_db 1 ?u1 1 ?o1] n u ob
  have a: "check_delete_access 3 1 False True = True"
    "fst (request_object_deletion no_faults sample_db 1 1) = Inr True"
    by simp_all
  from check_delete_access_iff [of 1 2 False False no_faults sample_db 2 ?u2 3 ?o3] n u ob
  have b: "fst (request_object_deletion no_faults sample_db 2 3) = Inr False"
    by simp
  from check_delete_access_iff [of 2 1 True False no_faults sample_db 2 ?u2 3 ?o3]
  have c: "check_delete_access 2 1 True False = False"
    by simp
  from check_delete_access_iff [of 1 1 True False no_faults sample_db 2 ?u2 3 ?o3]
  have d: "check_delete_access 1 1 True False = True"
    by simp
  from a b c d show ?thesis by simp
qed

section \<open>Facts about storage and the audit sink\<close>


lemma log_event_users: "users (log_event env db u ev ob d s) = users db"
  by (simp add: log_event_def split: option.splits)

lemma log_event_audit_logs:
  "audit_error env = None \<Longrightarrow>
   audit_logs (log_event env db u ev ob d s) =
     audit_logs db @ [\<lparr>a_event_type = ev, a_user_id = u, a_object_id = ob, a_details = d,
                       a_success = s\<rparr>]"
  by (simp add: log_event_def)

lemma update_object_content_audit_logs:
  "audit_logs (update_object_content db ob c) = audit_logs db"
  by (simp add: update_object_content_def)

lemma delete_object_row_audit_logs:
  "audit_logs (delete_object_row db ob) = audit_logs db"
  by (simp add: delete_object_row_def)

lemma insert_object_audit_logs:
  "audit_logs (snd (insert_object db n c l w)) = audit_logs db"
  by (simp add: insert_object_def Let_def)

lemmas audit_simps = log_event_audit_logs update_object_content_audit_logs
  delete_object_row_audit_logs insert_object_audit_logs

section \<open>The audit trail of the mediator\<close>

lemma read_audited:
  assumes "load_error env = None" and "audit_error env = None"
  shows "\<exists>r. audit_logs (snd (request_read_access env db user_id object_id))
               = audit_logs db @ [r] \<and>
             a_success r =
               (\<exists>x. fst (request_read_access env db user_id object_id) = Inr (Some x))"
  using assms
  by (simp add: request_read_access_def Let_def audit_simps split: option.splits)

lemma write_audited:
  assumes "load_error env = None" and "audit_error env = None"
  shows "\<exists>r. audit_logs (snd (request_write_access env db user_id object_id c))
               = audit_logs db @ [r] \<and>
             a_success r = (fst (request_write_access env db user_id object_id c) = Inr True)"
  using assms
  by (simp add: request_write_access_def Let_def audit_simps split: option.splits)

lemma create_audited:
  assumes "load_error env = None" and "audit_error env = None"
  shows "\<exists>r. audit_logs (snd (request_object_creation env db user_id n c l))
               = audit_logs db @ [r] \<and>
             a_success r = (fst (request_object_creation env db user_id n c l) = Inr True)"
  using assms
  by (simp add: request_object_creation_def Let_def audit_simps
      split: option.splits prod.splits)
    (metis insert_object_audit_logs snd_conv)

lemma delete_audited:
  assumes "load_error env = None" and "audit_error env = None"
  shows "\<exists>r. audit_logs (snd (request_object_deletion env db user_id object_id))
               = audit_logs db @ [r] \<and>
             a_success r = (fst (request_object_deletion env db user_id object_id) = Inr True)"
  using assms
  by (simp add: request_object_deletion_def Let_def audit_simps split: option.splits)

lemma list_not_audited: "snd (get_accessible_objects env db user_id) = db"
  by (simp add: get_accessible_objects_def Let_def split: option.splits)

text \<open>
  Claim C1, as stated: every public operation of the mediator, \<open>get_accessible_objects\<close>
  included, produces exactly one audit record before it returns. It fails:
  \<open>get_accessible_objects\<close> never calls \<open>log_event\<close>. On the sample database the subject 2
  gets its listing and the audit log is as empty as before.
\<close>

theorem get_accessible_objects_writes_no_audit_record:
  "get_accessible_objects no_faults sample_db 2 =
     (Inr [(2, ''agenda'', 1, 2), (1, ''budget'', 1, 2), (4, ''Agenda (public)'', 0, 1)],
      sample_db) \<and>
   audit_logs sample_db = []"
proof -
  have "get_accessible_objects no_faults sample_db 2 =
     (Inr [(2, ''agenda'', 1, 2), (1, ''budget'', 1, 2), (4, ''Agenda (public)'', 0, 1)],
      sample_db)"
    by code_simp
  moreover have "audit_logs sample_db = []"
    by (simp add: sample_db_def)
  ultimately show ?thesis by simp
qed

text \<open>
  Claim C1, amended: when no storage error escapes while loading and the insert into the
  audit log does not itself fail, each of \<open>request_read_access\<close>, \<open>request_write_access\<close>,
  \<open>request_object_creation\<close> and \<open>request_object_deletion\<close> appends exactly one audit
  record on every path (missing entity, invalid level, denial, failed mutation, grant),
  and the record's success flag is true exactly when the call returns the granted result
  (the name and content for a read, \<open>True\<close> for the others).
  \<open>get_accessible_objects\<close> leaves the database, and so the audit log, as it was.
\<close>

theorem mediator_audit_trail:
  assumes "load_error env = None" and "audit_error env = None"
  shows "(\<exists>r. audit_logs (snd (request_read_access env db user_id object_id))
               = audit_logs db @ [r] \<and>
              a_success r =
                (\<exists>x. fst (request_read_access env db user_id object_id) = Inr (Some x))) \<and>
         (\<exists>r. audit_logs (snd (request_write_access env db user_id object_id new_content))
               = audit_logs db @ [r] \<and>
              a_success r =
                (fst (request_write_access env db user_id object_id new_content) = Inr True)) \<and>
         (\<exists>r. audit_logs (snd (request_object_creation env db user_id name content level))
               = audit_logs db @ [r] \<and>
              a_success r =
                (fst (request_object_creation env db user_id name content level) = Inr True)) \<and>
         (\<exists>r. audit_logs (snd (request_object_deletion env db user_id object_id))
               = audit_logs db @ [r] \<and>
              a_success r =
                (fst (request_object_deletion env db user_id object_id) = Inr True)) \<and>
         snd (get_accessible_objects env db user_id) = db"
  using read_audited [OF assms] write_audited [OF assms] create_audited [OF assms]
    delete_audited [OF assms] list_not_audited
  by blast

theorem mediator_audit_trail_witness:
  "load_error no_faults = None \<and> audit_error no_faults = None \<and>
   (\<exists>r. audit_logs (snd (request_read_access no_faults sample_db 2 3))
         = audit_logs sample_db @ [r] \<and>
        a_success r = (\<exists>x. fst (request_read_access no_faults sample_db 2 3) = Inr (Some x))) \<and>
   (\<exists>r. audit_logs (snd (request_write_access no_faults sample_db 2 3 ''new''))
         = audit_logs sample_db @ [r] \<and>
        a_success r = (fst (request_write_access no_faults sample_db 2 3 ''new'') = Inr True)) \<and>
   (\<exists>r. audit_logs (snd (request_object_creation no_faults sample_db 2 ''memo'' ''m'' 2))
         = audit_logs sample_db @ [r] \<and>
        a_success r =
          (fst (request_object_creation no_faults sample_db 2 ''memo'' ''m'' 2) = Inr True)) \<and>
   (\<exists>r. audit_logs (snd (request_object_deletion no_faults sample_db 2 3))
         = audit_logs sample_db @ [r] \<and>
        a_success r = (fst (request_object_deletion no_faults sample_db 2 3) = Inr True)) \<and>
   snd (get_accessible_objects no_faults sample_db 2) = sample_db"
proof -
  have h1: "load_error no_faults = None" and h2: "audit_error no_faults = None"
    by (simp_all add: no_faults_def)
  from mediator_audit_trail [OF h1 h2, of sample_db 2 3 "''new''" "''memo''" "''m''" 2] h1 h2
  show ?thesis by simp
qed

section \<open>Errors in the mediator\<close>











section \<open>Reading: existence hiding\<close>

text \<open>
  Claim C6. For a subject id and an object id, \<open>request_read_access\<close> returns the same
  value to its caller in a database where the object id does not resolve as in one where
  the object exists and \<open>can_view_object_existence\<close> is false for the subject; when no
  storage error escapes, that value is \<open>None\<close> in both.
\<close>

theorem request_read_access_hides_existence:
  assumes "fetch_object db1 object_id = None"
    and "fetch_user db2 user_id = Some user_row"
    and "fetch_object db2 object_id = Some object_row"
    and "\<not> can_view_object_existence (u_security_level user_row) (o_security_level object_row)"
  shows "fst (request_read_access env db1 user_id object_id) =
         fst (request_read_access env db2 user_id object_id) \<and>
         (load_error env = None \<longrightarrow> fst (request_read_access env db2 user_id object_id) = Inr None)"
  using assms
  by (simp add: request_read_access_def Let_def split: option.splits)

theorem request_read_access_hides_existence_witness:
  "fetch_object (delete_object_row sample_db 3) 3 = None \<and>
   fst (request_read_access no_faults (delete_object_row sample_db 3) 2 3) = Inr None \<and>
   fst (request_read_access no_faults sample_db 2 3) = Inr None"
proof -
  let ?u = "\<lparr>u_id = 2, u_security_level = 1, u_is_super_admin = 0\<rparr>"
  let ?obj = "\<lparr>o_id = 3, o_name = ''codes'', o_content = ''z'', o_security_level = 2,
               o_owner_id = 1\<rparr>"
  have h1: "fetch_object (delete_object_row sample_db 3) 3 = None"
    by (simp add: fetch_object_def delete_object_row_def sample_db_def)
  have h2: "fetch_user sample_db 2 = Some ?u"
    by (simp add: fetch_user_def sample_db_def)
  have h3: "fetch_object sample_db 3 = Some ?obj"
    by (simp add: fetch_object_def sample_db_def)
  have h4: "\<not> can_view_object_existence (u_security_level ?u) (o_security_level ?obj)"
    by (simp add: can_view_object_existence_def)
  have h5: "load_error no_faults = None"
    by (simp add: no_faults_def)
  from request_read_access_hides_existence [OF h1 h2 h3 h4, of no_faults] h1 h5
  show ?thesis by simp
qed

section \<open>Writing\<close>










section \<open>Creating\<close>









section \<open>Listing and the object directory\<close>

lemma order_key_le: "order_key r \<le> order_key r' \<longleftrightarrow> level_desc_name_asc r r'"
  by (auto simp add: order_key_def level_desc_name_asc_def)

lemma sorted_order_key:
  "sorted_wrt level_desc_name_asc (sort_key order_key rows)"
proof -
  have "sorted (map order_key (sort_key order_key rows))"
    by (rule sorted_sort_key)
  then have "sorted_wrt (\<lambda>r r'. order_key r \<le> order_key r') (sort_key order_key rows)"
    by (simp add: sorted_map)
  then show ?thesis
    by (simp add: order_key_le [abs_def] level_desc_name_asc_def [abs_def])
qed

lemma sorted_name:
  "sorted_wrt (\<lambda>r r'. o_name r \<le> o_name r') (sort_key o_name rows)"
  using sorted_sort_key [of o_name rows] by (simp add: sorted_map)

text \<open>
  Claim C9. With the load raising nothing: for an existing subject,
  \<open>get_accessible_objects\<close> returns the summaries of exactly the objects whose level is at
  most the subject's level (each as often as it is stored), in descending level and,
  within a level, ascending name; for an unknown subject id it returns the empty list,
  not an error.
\<close>

theorem get_accessible_objects_listing:
  assumes "load_error env = None"
  shows "(fetch_user db user_id = None \<longrightarrow>
            get_accessible_objects env db user_id = (Inr [], db)) \<and>
         (\<forall>user_row. fetch_user db user_id = Some user_row \<longrightarrow>
            (\<exists>rows. fst (get_accessible_objects env db user_id) = Inr (map summary rows) \<and>
                    mset rows =
                      mset (filter (\<lambda>r. o_security_level r \<le> u_security_level user_row)
                             (objects db)) \<and>
                    sorted_wrt level_desc_name_asc rows))"
proof (intro conjI allI impI)
  assume "fetch_user db user_id = None"
  with assms show "get_accessible_objects env db user_id = (Inr [], db)"
    by (simp add: get_accessible_objects_def)
next
  fix user_row
  assume u: "fetch_user db user_id = Some user_row"
  let ?rows = "sort_key order_key
                 (filter (\<lambda>r. o_security_level r \<le> u_security_level user_row) (objects db))"
  from assms u have "fst (get_accessible_objects env db user_id) = Inr (map summary ?rows)"
    by (simp add: get_accessible_objects_def Let_def)
  moreover have "mset ?rows =
      mset (filter (\<lambda>r. o_security_level r \<le> u_security_level user_row) (objects db))"
    by simp
  moreover have "sorted_wrt level_desc_name_asc ?rows"
    by (rule sorted_order_key)
  ultimately show "\<exists>rows. fst (get_accessible_objects env db user_id) = Inr (map summary rows) \<and>
                    mset rows =
                      mset (filter (\<lambda>r. o_security_level r \<le> u_security_level user_row)
                             (objects db)) \<and>
                    sorted_wrt level_desc_name_asc rows"
    by blast
qed

theorem get_accessible_objects_listing_witness:
  "load_error no_faults = None \<and> fetch_user sample_db 9 = None \<and>
   get_accessible_objects no_faults sample_db 9 = (Inr [], sample_db) \<and>
   (\<exists>rows. fst (get_accessible_objects no_faults sample_db 2) = Inr (map summary rows) \<and>
           mset rows = mset (filter (\<lambda>r. o_security_level r \<le> 1) (objects sample_db)) \<and>
           sorted_wrt level_desc_name_asc rows)"
proof -
  let ?u2 = "\<lparr>u_id = 2, u_security_level = 1, u_is_super_admin = 0\<rparr>"
  have n: "load_error no_faults = None"
    by (simp add: no_faults_def)
  have u9: "fetch_user sample_db 9 = None" and u2: "fetch_user sample_db 2 = Some ?u2"
    by (simp_all add: fetch_user_def sample_db_def)
  from get_accessible_objects_listing [OF n, of sample_db 9] u9
  have a: "get_accessible_objects no_faults sample_db 9 = (Inr [], sample_db)"
    by simp
  from get_accessible_objects_listing [OF n, of sample_db 2] u2
  have b: "\<exists>rows. fst (get_accessible_objects no_faults sample_db 2) = Inr (map summary rows) \<and>
           mset rows = mset (filter (\<lambda>r. o_security_level r \<le> 1) (objects sample_db)) \<and>
           sorted_wrt level_desc_name_asc rows"
    by simp
  from n u9 a b show ?thesis by simp
qed

lemma valid_levels_public:
  assumes "\<forall>r \<in> set rows. o_security_level r \<in> defined_levels"
  shows "filter (\<lambda>r. P r \<and> o_security_level r \<le> 0) rows =
         filter (\<lambda>r. P r \<and> o_security_level r = 0) rows"
  using assms by (intro filter_cong) (auto simp add: defined_levels_def)

lemma valid_levels_none_at:
  assumes "\<forall>r \<in> set rows. o_security_level r \<in> defined_levels" and "level < 0"
  shows "filter (\<lambda>r. o_security_level r = level) rows = []"
  using assms by (auto simp add: filter_empty_conv defined_levels_def)

text \<open>
  Claim C10. For an unknown subject id (the load raising nothing) the object directory
  takes 0 as the subject's level: \<open>search_objects\<close> returns the objects of level at most 0
  whose name matches the pattern, which are the Public ones when every stored level is a
  defined level; \<open>get_objects_by_level\<close> returns the Public objects, by name, when
  queried at level 0, the empty list at every level above 0, and, when every stored
  level is a defined level, the empty list at every level other than 0.
\<close>

theorem unknown_subject_is_public:
  assumes "load_error env = None" and "fetch_user db user_id = None"
  shows "get_user_security_level env db user_id = Inr 0 \<and>
         (\<exists>rows. search_objects env db user_id search_term = Inr (map summary rows) \<and>
                 mset rows =
                   mset (filter (\<lambda>r. sql_like (''%'' @ search_term @ ''%'') (o_name r) \<and>
                                      o_security_level r \<le> 0) (objects db)) \<and>
                 ((\<forall>r \<in> set (objects db). o_security_level r \<in> defined_levels) \<longrightarrow>
                    mset rows =
                      mset (filter (\<lambda>r. sql_like (''%'' @ search_term @ ''%'') (o_name r) \<and>
                                         o_security_level r = 0) (objects db))) \<and>
                 sorted_wrt level_desc_name_asc rows) \<and>
         (\<exists>rows. get_objects_by_level env db user_id 0 = Inr (map level_entry rows) \<and>
                 mset rows = mset (filter (\<lambda>r. o_security_level r = 0) (objects db)) \<and>
                 sorted_wrt (\<lambda>r r'. o_name r \<le> o_name r') rows) \<and>
         (level > 0 \<longrightarrow> get_objects_by_level env db user_id level = Inr []) \<and>
         ((\<forall>r \<in> set (objects db). o_security_level r \<in> defined_levels) \<and> level \<noteq> 0 \<longrightarrow>
            get_objects_by_level env db user_id level = Inr [])"
proof (intro conjI impI)
  show l: "get_user_security_level env db user_id = Inr 0"
    using assms by (simp add: get_user_security_level_def)
  let ?rows = "sort_key order_key
                 (filter (\<lambda>r. sql_like (''%'' @ search_term @ ''%'') (o_name r) \<and>
                               o_security_level r \<le> 0) (objects db))"
  have "search_objects env db user_id search_term = Inr (map summary ?rows)"
    using assms(1) l by (simp add: search_objects_def)
  moreover have "mset ?rows =
      mset (filter (\<lambda>r. sql_like (''%'' @ search_term @ ''%'') (o_name r) \<and>
                         o_security_level r \<le> 0) (objects db))"
    by simp
  moreover have "(\<forall>r \<in> set (objects db). o_security_level r \<in> defined_levels) \<longrightarrow>
      mset ?rows =
        mset (filter (\<lambda>r. sql_like (''%'' @ search_term @ ''%'') (o_name r) \<and>
                           o_security_level r = 0) (objects db))"
    by (simp add: valid_levels_public)
  moreover have "sorted_wrt level_desc_name_asc ?rows"
    by (rule sorted_order_key)
  ultimately show "\<exists>rows. search_objects env db user_id search_term = Inr (map summary rows) \<and>
                 mset rows =
                   mset (filter (\<lambda>r. sql_like (''%'' @ search_term @ ''%'') (o_name r) \<and>
                                      o_security_level r \<le> 0) (objects db)) \<and>
                 ((\<forall>r \<in> set (objects db). o_security_level r \<in> defined_levels) \<longrightarrow>
                    mset rows =
                      mset (filter (\<lambda>r. sql_like (''%'' @ search_term @ ''%'') (o_name r) \<and>
                                         o_security_level r = 0) (objects db))) \<and>
                 sorted_wrt level_desc_name_asc rows"
    by blast
  let ?pub = "sort_key o_name (filter (\<lambda>r. o_security_level r = 0) (objects db))"
  have "get_objects_by_level env db user_id 0 = Inr (map level_entry ?pub)"
    using assms(1) l by (simp add: get_objects_by_level_def)
  moreover have "mset ?pub = mset (filter (\<lambda>r. o_security_level r = 0) (objects db))"
    by simp
  moreover have "sorted_wrt (\<lambda>r r'. o_name r \<le> o_name r') ?pub"
    by (rule sorted_name)
  ultimately show "\<exists>rows. get_objects_by_level env db user_id 0 = Inr (map level_entry rows) \<and>
                 mset rows = mset (filter (\<lambda>r. o_security_level r = 0) (objects db)) \<and>
                 sorted_wrt (\<lambda>r r'. o_name r \<le> o_name r') rows"
    by blast
  show "get_objects_by_level env db user_id level = Inr []" if "level > 0"
    using that l by (simp add: get_objects_by_level_def)
  show "get_objects_by_level env db user_id level = Inr []"
    if h: "(\<forall>r \<in> set (objects db). o_security_level r \<in> defined_levels) \<and> level \<noteq> 0"
  proof (cases "level > 0")
    case True
    then show ?thesis using l by (simp add: get_objects_by_level_def)
  next
    case False
    with h have "level < 0" by simp
    with h have "filter (\<lambda>r. o_security_level r = level) (objects db) = []"
      by (simp add: valid_levels_none_at)
    then show ?thesis
      using False l assms(1) by (simp add: get_objects_by_level_def)
  qed
qed

theorem unknown_subject_is_public_witness:
  "load_error no_faults = None \<and> fetch_user sample_db 9 = None \<and>
   set (map o_security_level (objects sample_db)) \<subseteq> defined_levels \<and>
   get_user_security_level no_faults sample_db 9 = Inr 0 \<and>
   search_objects no_faults sample_db 9 ''age'' = Inr [(4, ''Agenda (public)'', 0, 1)] \<and>
   get_objects_by_level no_faults sample_db 9 0 = Inr [(4, ''Agenda (public)'', 1)] \<and>
   get_objects_by_level no_faults sample_db 9 1 = Inr [] \<and>
   get_objects_by_level no_faults sample_db 9 (- 1) = Inr []"
proof -
  have n: "load_error no_faults = None"
    by (simp add: no_faults_def)
  have u9: "fetch_user sample_db 9 = None"
    by (simp add: fetch_user_def sample_db_def)
  have v: "set (map o_security_level (objects sample_db)) \<subseteq> defined_levels"
    by (simp add: sample_db_def defined_levels_def)
  then have v': "\<forall>r \<in> set (objects sample_db). o_security_level r \<in> defined_levels"
    by auto
  from unknown_subject_is_public [OF n u9, of "''age''" 1]
  have a: "get_user_security_level no_faults sample_db 9 = Inr 0"
    "get_objects_by_level no_faults sample_db 9 1 = Inr []"
    by simp_all
  from unknown_subject_is_public [OF n u9, of "''age''" "- 1"] v'
  have b: "get_objects_by_level no_faults sample_db 9 (- 1) = Inr []"
    by simp
  have c: "search_objects no_faults sample_db 9 ''age'' = Inr [(4, ''Agenda (public)'', 0, 1)]"
    by code_simp
  have d: "get_objects_by_level no_faults sample_db 9 0 = Inr [(4, ''Agenda (public)'', 1)]"
    by code_simp
  from n u9 v a b c d show ?thesis by simp
qed

end
